theory Spec2Isabelle
  imports Main "HOL-Library.Sublist"
begin

section \<open>Data model of \<open>src/index.ts\<close>\<close>

text \<open>
  The module exports \<open>contract\<close>, which turns a contract description into an Express request
  handler, and \<open>defineLogger\<close>, which fills the module-wide logger slot. The embedding keeps
  every call the handler makes to code it does not own (validators, the contract's handler,
  the two hooks, \<open>res.json\<close>, the console, the logger) as an event of a trace, in program
  order, so that "is called", "is never called" and "is called after" are statements about
  that trace.

  The embedding takes three things for granted: every callback settles (a handler, hook or
  logger that never returns is not modelled), \<open>res.json\<close> does not throw, and the logger
  slot does not change while a request is being handled.
\<close>

datatype LogLevel = Debug | Info | Error | Warn

fun LogLevels :: "LogLevel \<Rightarrow> nat" where
  "LogLevels Debug = 0"
| "LogLevels Info = 1"
| "LogLevels Error = 2"
| "LogLevels Warn = 3"

record LogParams =
  level :: LogLevel
  message :: string
  tags :: "string list"
  metadata :: "(string \<times> string) list"

text \<open>One issue of a \<open>ZodError\<close>: the path of the offending field and the description.\<close>

record zod_issue =
  issue_path :: "string list"
  issue_message :: string

text \<open>
  Values that can be thrown (or be the reason of a rejected promise). The \<open>catch\<close> clause of
  the source distinguishes them with \<open>instanceof z.ZodError\<close> and \<open>instanceof ContractError\<close>;
  everything else is one of the last two constructors. \<open>Nullish\<close> stands for \<open>null\<close> and
  \<open>undefined\<close>, the two values on which reading a property (\<open>e.stack\<close>) itself throws a
  \<open>TypeError\<close>; \<open>OtherError\<close> is any other value, tagged with a description.
\<close>

datatype thrown =
    ZodError "zod_issue list"
  | ContractError string int
  | OtherError string
  | Nullish

datatype channel = Query | Params | Body | Headers

text \<open>The \<open>inputs\<close> object handed to the handler.\<close>

record 'v inputs =
  in_query :: 'v
  in_params :: 'v
  in_body :: 'v
  in_headers :: 'v

text \<open>The four raw fields of the Express request that the handler reads.\<close>

record 'v Request =
  req_query :: 'v
  req_params :: 'v
  req_body :: 'v
  req_headers :: 'v

text \<open>
  What the contract's handler does with its context \<open>ctx\<close>, as a script: it may call
  \<open>ctx.log\<close> any number of times and then returns a result, throws (or rejects with) a
  value, or calls \<open>ctx.error\<close> without catching what that throws.
\<close>

datatype 'r handler_script =
    Return 'r
  | Throw thrown
  | CtxLog LogParams "'r handler_script"
  | CtxError string "int option"

text \<open>
  A hook is declared as returning a promise. Calling it either yields a promise that
  resolves, a promise that rejects, or throws before any promise exists.
\<close>

datatype hook_outcome = Resolves | Rejects thrown | ThrowsSync thrown

text \<open>
  \<open>ContractInput\<close>: a schema is represented by its \<open>parse\<close> method, which returns the parsed
  value or throws. \<open>c_result\<close> is the output schema \<open>result\<close>.
\<close>

record ('v, 'r) ContractInput =
  c_query :: "('v \<Rightarrow> thrown + 'v) option"
  c_params :: "('v \<Rightarrow> thrown + 'v) option"
  c_body :: "('v \<Rightarrow> thrown + 'v) option"
  c_headers :: "('v \<Rightarrow> thrown + 'v) option"
  c_result :: "('r \<Rightarrow> thrown + 'r) option"
  c_handler :: "'v inputs \<Rightarrow> 'r handler_script"
  c_onUnexpectedError :: "(thrown \<Rightarrow> hook_outcome) option"
  c_beforeResponse :: "('r \<Rightarrow> hook_outcome) option"

text \<open>The object passed to \<open>res.json\<close>; \<open>data = None\<close> is the literal \<open>null\<close>.\<close>

record 'r envelope =
  ok :: bool
  data :: "'r option"
  errors :: "string list"

text \<open>The module-wide \<open>$contractContext\<close> and its only writer.\<close>

record contractContext =
  logger :: "(LogParams list \<Rightarrow> hook_outcome) option"

definition defineLogger ::
  "(LogParams list \<Rightarrow> hook_outcome) \<Rightarrow> contractContext \<Rightarrow> contractContext" where
  "defineLogger fn cc = cc\<lparr>logger := Some fn\<rparr>"

text \<open>
  The two imported packages are not part of the sources; what the handler uses of them is a
  parameter: \<open>record_string_parse\<close> is \<open>z.record(z.string()).parse\<close>, and \<open>zve_prefix\<close>,
  \<open>zve_issue_text\<close>, \<open>zve_max_issues\<close> are the text that \<open>fromZodError\<close> puts in front
  of its message, the text it renders for one issue, and the number of issues it puts into
  one message (its option \<open>maxIssuesInMessage\<close>, which the handler leaves at the default).
\<close>

record 'v libs =
  record_string_parse :: "'v \<Rightarrow> thrown + 'v"
  zve_prefix :: string
  zve_issue_text :: "zod_issue \<Rightarrow> string"
  zve_max_issues :: nat

datatype ('v, 'r) event =
    Parse channel 'v
  | RecordParse 'v
  | Handler "'v inputs"
  | BeforeResponse 'r
  | OnUnexpectedError thrown
  | ResJson "'r envelope"
  | ConsoleError string thrown
  | ConsoleLog string
  | Logger "LogParams list"

text \<open>
  The outcome of one invocation of the request handler: the trace, and how the promise of
  the \<open>async\<close> function settles (\<open>None\<close>: resolved, \<open>Some e\<close>: rejected with \<open>e\<close>).
\<close>

record ('v, 'r) run =
  trace :: "('v, 'r) event list"
  completion :: "thrown option"

section \<open>String helpers\<close>

text \<open>\<open>Array.prototype.join\<close> on an array of strings.\<close>

fun js_join :: "string \<Rightarrow> string list \<Rightarrow> string" where
  "js_join sep [] = []"
| "js_join sep [p] = p"
| "js_join sep (p # q # ps) = p @ sep @ js_join sep (q # ps)"

text \<open>
  \<open>String.prototype.split\<close> with a string separator: scan from the left, cut at each
  occurrence of the separator and go on behind it. \<open>cur\<close> is the piece being collected.
  An empty separator splits into single characters.
\<close>

function js_split_from :: "string \<Rightarrow> string \<Rightarrow> string \<Rightarrow> string list" where
  "js_split_from sep cur s =
     (if s = [] then [cur]
      else if sep \<noteq> [] \<and> prefix sep s then cur # js_split_from sep [] (drop (length sep) s)
      else js_split_from sep (cur @ [hd s]) (tl s))"
  by pat_completeness auto
termination
  by (relation "measure (\<lambda>(sep, cur, s). length s)") auto

declare js_split_from.simps [simp del]

definition js_split :: "string \<Rightarrow> string \<Rightarrow> string list" where
  "js_split s sep = (if sep = [] then map (\<lambda>c. [c]) s else js_split_from sep [] s)"

text \<open>
  Modelled from the spec: \<open>fromZodError\<close> belongs to the package \<open>zod-validation-error\<close>,
  which is not among the sources. The spec says that the structured validation error is
  rendered with one text per issue and that a fixed separator string joins the issues
  before the handler splits the message again. The package renders the first
  \<open>zve_max_issues\<close> issues only.
\<close>

definition fromZodError_message :: "'v libs \<Rightarrow> string \<Rightarrow> zod_issue list \<Rightarrow> string" where
  "fromZodError_message lib issueSeparator issues =
     zve_prefix lib @
     js_join issueSeparator (map (zve_issue_text lib) (take (zve_max_issues lib) issues))"

section \<open>The request handler\<close>

text \<open>\<open>ctx.error\<close>: \<open>(message, code = 400) => { throw new ContractError(message, code) }\<close>.\<close>

definition ctx_error :: "string \<Rightarrow> int option \<Rightarrow> thrown" where
  "ctx_error msg code = ContractError msg (case code of None \<Rightarrow> 400 | Some c \<Rightarrow> c)"

text \<open>
  Running the handler's script against the array \<open>logs\<close>: \<open>ctx.log\<close> pushes, the rest ends
  the handler.
\<close>

fun run_handler :: "'r handler_script \<Rightarrow> LogParams list \<Rightarrow> LogParams list \<times> (thrown + 'r)" where
  "run_handler (Return d) logs = (logs, Inr d)"
| "run_handler (Throw e) logs = (logs, Inl e)"
| "run_handler (CtxLog p k) logs = run_handler k (logs @ [p])"
| "run_handler (CtxError msg code) logs = (logs, Inl (ctx_error msg code))"

text \<open>
  \<open>await hook(x).catch((e) => { console.error(label, e.stack) })\<close>: a rejection is printed
  and swallowed, unless reading \<open>e.stack\<close> throws; a synchronous throw of the hook happens
  before \<open>.catch\<close> is attached and escapes. The second component is the exception that
  leaves the statement, if any.
\<close>

definition type_error :: thrown where
  "type_error = OtherError ''TypeError: cannot read properties of a nullish value''"

fun swallow :: "string \<Rightarrow> hook_outcome \<Rightarrow> ('v, 'r) event list \<times> thrown option" where
  "swallow label Resolves = ([], None)"
| "swallow label (Rejects e) =
     (case e of Nullish \<Rightarrow> ([], Some type_error) | _ \<Rightarrow> ([ConsoleError label e], None))"
| "swallow label (ThrowsSync e) = ([], Some e)"

text \<open>\<open>contract.x ? contract.x.parse(req.x) : req.x\<close> for query, params and body.\<close>

definition parse_field ::
  "channel \<Rightarrow> ('v \<Rightarrow> thrown + 'v) option \<Rightarrow> 'v \<Rightarrow> ('v, 'r) event list \<times> (thrown + 'v)" where
  "parse_field ch schema raw =
     (case schema of None \<Rightarrow> ([], Inr raw) | Some parse \<Rightarrow> ([Parse ch raw], parse raw))"

text \<open>
  \<open>contract.headers ? contract.headers.parse(req.headers)
     : z.record(z.string()).parse(req.headers)\<close>.
\<close>

definition parse_headers ::
  "'v libs \<Rightarrow> ('v \<Rightarrow> thrown + 'v) option \<Rightarrow> 'v \<Rightarrow> ('v, 'r) event list \<times> (thrown + 'v)" where
  "parse_headers lib schema raw =
     (case schema of
        None \<Rightarrow> ([RecordParse raw], record_string_parse lib raw)
      | Some parse \<Rightarrow> ([Parse Headers raw], parse raw))"

text \<open>Sequencing of two statements inside \<open>try\<close>: an exception skips what follows.\<close>

definition and_then ::
  "'e list \<times> (thrown + 'a) \<Rightarrow> ('a \<Rightarrow> 'e list \<times> (thrown + 'b)) \<Rightarrow> 'e list \<times> (thrown + 'b)" where
  "and_then m f =
     (case m of
        (t, Inl e) \<Rightarrow> (t, Inl e)
      | (t, Inr a) \<Rightarrow> (case f a of (t', r) \<Rightarrow> (t @ t', r)))"

text \<open>Lines 73 to 83: the four fields in the order of the source.\<close>

definition parse_inputs ::
  "('v, 'r) ContractInput \<Rightarrow> 'v libs \<Rightarrow> 'v Request \<Rightarrow> ('v, 'r) event list \<times> (thrown + 'v inputs)" where
  "parse_inputs c lib req =
     and_then (parse_field Query (c_query c) (req_query req)) (\<lambda>q.
     and_then (parse_field Params (c_params c) (req_params req)) (\<lambda>p.
     and_then (parse_field Body (c_body c) (req_body req)) (\<lambda>b.
     and_then (parse_headers lib (c_headers c) (req_headers req)) (\<lambda>h.
       ([], Inr \<lparr>in_query = q, in_params = p, in_body = b, in_headers = h\<rparr>)))))"

text \<open>Lines 94 to 98.\<close>

definition before_response ::
  "('v, 'r) ContractInput \<Rightarrow> 'r \<Rightarrow> ('v, 'r) event list \<times> thrown option" where
  "before_response c d =
     (case c_beforeResponse c of
        None \<Rightarrow> ([], None)
      | Some hook \<Rightarrow>
          (case swallow ''Error occured in beforeResponse hook:'' (hook d) of
             (t, x) \<Rightarrow> (BeforeResponse d # t, x)))"

text \<open>
  The \<open>try\<close> block: its trace, the contents of \<open>logs\<close> when it is left, and the exception
  that leaves it, if any.
\<close>

definition try_block ::
  "('v, 'r) ContractInput \<Rightarrow> 'v libs \<Rightarrow> 'v Request \<Rightarrow>
     ('v, 'r) event list \<times> LogParams list \<times> thrown option" where
  "try_block c lib req =
     (case parse_inputs c lib req of
        (t, Inl e) \<Rightarrow> (t, [], Some e)
      | (t, Inr i) \<Rightarrow>
          (case run_handler (c_handler c i) [] of
             (logs, Inl e) \<Rightarrow> (t @ [Handler i], logs, Some e)
           | (logs, Inr d) \<Rightarrow>
               (case before_response c d of
                  (t', Some e) \<Rightarrow> (t @ Handler i # t', logs, Some e)
                | (t', None) \<Rightarrow>
                    (t @ Handler i # t' @ [ResJson \<lparr>ok = True, data = Some d, errors = []\<rparr>],
                     logs, None))))"

text \<open>Lines 120 to 124.\<close>

definition on_unexpected ::
  "('v, 'r) ContractInput \<Rightarrow> thrown \<Rightarrow> ('v, 'r) event list \<times> thrown option" where
  "on_unexpected c err =
     (case c_onUnexpectedError c of
        None \<Rightarrow> ([], None)
      | Some hook \<Rightarrow>
          (case swallow ''Error occured in onUnexpectedError hook:'' (hook err) of
             (t, x) \<Rightarrow> (OnUnexpectedError err # t, x)))"

definition something_went_wrong :: "'r envelope" where
  "something_went_wrong = \<lparr>ok = False, data = None, errors = [''Something went wrong'']\<rparr>"

text \<open>The \<open>catch\<close> clause: its trace and the exception that leaves it, if any.\<close>

definition catch_block ::
  "('v, 'r) ContractInput \<Rightarrow> 'v libs \<Rightarrow> thrown \<Rightarrow> ('v, 'r) event list \<times> thrown option" where
  "catch_block c lib err =
     (case err of
        ZodError issues \<Rightarrow>
          ([ResJson \<lparr>ok = False, data = None,
                     errors = js_split (fromZodError_message lib '';;;'' issues) '';;;''\<rparr>], None)
      | ContractError msg code \<Rightarrow>
          ([ResJson \<lparr>ok = False, data = None, errors = [msg]\<rparr>], None)
      | _ \<Rightarrow>
          (case on_unexpected c err of
             (t, Some e) \<Rightarrow> (t, Some e)
           | (t, None) \<Rightarrow> (t @ [ResJson something_went_wrong], None)))"

text \<open>The \<open>finally\<close> clause.\<close>

definition finally_block ::
  "contractContext \<Rightarrow> LogParams list \<Rightarrow> ('v, 'r) event list \<times> thrown option" where
  "finally_block cc logs =
     (case logger cc of
        Some fn \<Rightarrow>
          (case swallow ''Error occured in logger:'' (fn logs) of
             (t, x) \<Rightarrow> (Logger logs # t, x))
      | None \<Rightarrow> ([ConsoleLog ''No logger defined''], None))"

text \<open>\<open>try\<close> followed by \<open>catch\<close>: the trace, the logs, and the exception still pending.\<close>

definition try_catch ::
  "('v, 'r) ContractInput \<Rightarrow> 'v libs \<Rightarrow> 'v Request \<Rightarrow>
     ('v, 'r) event list \<times> LogParams list \<times> thrown option" where
  "try_catch c lib req =
     (case try_block c lib req of
        (t, logs, None) \<Rightarrow> (t, logs, None)
      | (t, logs, Some e) \<Rightarrow> (case catch_block c lib e of (t', x) \<Rightarrow> (t @ t', logs, x)))"

text \<open>
  The handler built by \<open>contract\<close>. An exception of the \<open>finally\<close> clause replaces the one
  that was pending.
\<close>

definition contract ::
  "('v, 'r) ContractInput \<Rightarrow> 'v libs \<Rightarrow> contractContext \<Rightarrow> 'v Request \<Rightarrow> ('v, 'r) run" where
  "contract c lib cc req =
     (case try_catch c lib req of
        (t, logs, pending) \<Rightarrow>
          (case finally_block cc logs of
             (t', x) \<Rightarrow>
               \<lparr>trace = t @ t',
                completion = (case x of Some e \<Rightarrow> Some e | None \<Rightarrow> pending)\<rparr>))"

section \<open>Observations on a trace\<close>

definition responses :: "('v, 'r) event list \<Rightarrow> 'r envelope list" where
  "responses t = concat (map (\<lambda>ev. case ev of ResJson env \<Rightarrow> [env] | _ \<Rightarrow> []) t)"

definition validated :: "('v, 'r) event list \<Rightarrow> channel list" where
  "validated t =
     concat (map (\<lambda>ev. case ev of Parse ch raw \<Rightarrow> [ch] | RecordParse raw \<Rightarrow> [Headers] | _ \<Rightarrow> []) t)"

definition handler_calls :: "('v, 'r) event list \<Rightarrow> 'v inputs list" where
  "handler_calls t = concat (map (\<lambda>ev. case ev of Handler i \<Rightarrow> [i] | _ \<Rightarrow> []) t)"

definition unexpected_calls :: "('v, 'r) event list \<Rightarrow> thrown list" where
  "unexpected_calls t = concat (map (\<lambda>ev. case ev of OnUnexpectedError e \<Rightarrow> [e] | _ \<Rightarrow> []) t)"

definition logger_calls :: "('v, 'r) event list \<Rightarrow> LogParams list list" where
  "logger_calls t = concat (map (\<lambda>ev. case ev of Logger ls \<Rightarrow> [ls] | _ \<Rightarrow> []) t)"

section \<open>Notions used in the statements\<close>

text \<open>Events of the validation stage, and events that only reach the console.\<close>

fun is_validation :: "('v, 'r) event \<Rightarrow> bool" where
  "is_validation (Parse ch v) = True"
| "is_validation (RecordParse v) = True"
| "is_validation ev = False"

fun is_console :: "('v, 'r) event \<Rightarrow> bool" where
  "is_console (ConsoleError l e) = True"
| "is_console (ConsoleLog l) = True"
| "is_console ev = False"

text \<open>The value the contract's handler returned on this request, if it was run and returned.\<close>

definition handler_returned ::
  "('v, 'r) ContractInput \<Rightarrow> 'v libs \<Rightarrow> 'v Request \<Rightarrow> 'r option" where
  "handler_returned c lib req =
     (case parse_inputs c lib req of
        (t, Inl e) \<Rightarrow> None
      | (t, Inr i) \<Rightarrow>
          (case run_handler (c_handler c i) [] of (logs, Inl e) \<Rightarrow> None | (logs, Inr d) \<Rightarrow> Some d))"

text \<open>The position of a channel in the order query, params, body, headers.\<close>

fun rank :: "channel \<Rightarrow> nat" where
  "rank Query = 0"
| "rank Params = 1"
| "rank Body = 2"
| "rank Headers = 3"

text \<open>
  A channel is validated when the contract has a schema for it; the headers are validated
  in any case, by the schema of the contract or by \<open>z.record(z.string())\<close>.
\<close>

definition configured :: "('v, 'r) ContractInput \<Rightarrow> channel \<Rightarrow> bool" where
  "configured c ch =
     (case ch of
        Query \<Rightarrow> c_query c \<noteq> None
      | Params \<Rightarrow> c_params c \<noteq> None
      | Body \<Rightarrow> c_body c \<noteq> None
      | Headers \<Rightarrow> True)"

text \<open>What one channel of the request yields on its own: the value for \<open>inputs\<close>, or a throw.\<close>

definition channel_outcome ::
  "('v, 'r) ContractInput \<Rightarrow> 'v libs \<Rightarrow> 'v Request \<Rightarrow> channel \<Rightarrow> thrown + 'v" where
  "channel_outcome c lib req ch =
     (case ch of
        Query \<Rightarrow>
          (case c_query c of None \<Rightarrow> Inr (req_query req) | Some parse \<Rightarrow> parse (req_query req))
      | Params \<Rightarrow>
          (case c_params c of None \<Rightarrow> Inr (req_params req) | Some parse \<Rightarrow> parse (req_params req))
      | Body \<Rightarrow>
          (case c_body c of None \<Rightarrow> Inr (req_body req) | Some parse \<Rightarrow> parse (req_body req))
      | Headers \<Rightarrow>
          (case c_headers c of
             None \<Rightarrow> record_string_parse lib (req_headers req)
           | Some parse \<Rightarrow> parse (req_headers req)))"

definition channel_fails ::
  "('v, 'r) ContractInput \<Rightarrow> 'v libs \<Rightarrow> 'v Request \<Rightarrow> channel \<Rightarrow> bool" where
  "channel_fails c lib req ch =
     (case channel_outcome c lib req ch of Inl e \<Rightarrow> True | Inr v \<Rightarrow> False)"

text \<open>The channels in the given order, cut behind the first one that fails.\<close>

fun upto_first_failure :: "(channel \<Rightarrow> bool) \<Rightarrow> channel list \<Rightarrow> channel list" where
  "upto_first_failure fails [] = []"
| "upto_first_failure fails (ch # chs) = ch # (if fails ch then [] else upto_first_failure fails chs)"

text \<open>The events a handler script passes to \<open>ctx.log\<close>, and the action that ends it.\<close>

fun script_logs :: "'r handler_script \<Rightarrow> LogParams list" where
  "script_logs (CtxLog p k) = p # script_logs k"
| "script_logs (Return d) = []"
| "script_logs (Throw e) = []"
| "script_logs (CtxError msg code) = []"

fun final_action :: "'r handler_script \<Rightarrow> 'r handler_script" where
  "final_action (CtxLog p k) = final_action k"
| "final_action (Return d) = Return d"
| "final_action (Throw e) = Throw e"
| "final_action (CtxError msg code) = CtxError msg code"

text \<open>Everything logged through \<open>ctx.log\<close> while the request was handled.\<close>

definition logged ::
  "('v, 'r) ContractInput \<Rightarrow> 'v libs \<Rightarrow> 'v Request \<Rightarrow> LogParams list" where
  "logged c lib req =
     (case snd (parse_inputs c lib req) of Inl e \<Rightarrow> [] | Inr i \<Rightarrow> script_logs (c_handler c i))"

text \<open>
  The texts of the issues of a validation error, as \<open>fromZodError\<close> renders them: the first
  one carries the prefix of the message.
\<close>

definition issue_texts :: "'v libs \<Rightarrow> zod_issue list \<Rightarrow> string list" where
  "issue_texts lib issues =
     (case issues of
        [] \<Rightarrow> []
      | i # rest \<Rightarrow> (zve_prefix lib @ zve_issue_text lib i) # map (zve_issue_text lib) rest)"

text \<open>
  \<open>sep_free sep p\<close>: in \<open>p\<close> followed by the separator, the separator occurs at the end only.
\<close>

fun sep_free :: "string \<Rightarrow> string \<Rightarrow> bool" where
  "sep_free sep [] = True"
| "sep_free sep (ch # p) = (\<not> prefix sep (ch # p @ sep) \<and> sep_free sep p)"

text \<open>
  \<open>occurs sep p\<close>: the string \<open>sep\<close> occurs somewhere in \<open>p\<close>. A text is
  \<open>separator_free\<close> when it does not contain \<open>;;;\<close> and does not end in a semicolon.
\<close>

fun occurs :: "string \<Rightarrow> string \<Rightarrow> bool" where
  "occurs sep [] = (sep = [])"
| "occurs sep (ch # p) = (prefix sep (ch # p) \<or> occurs sep p)"

definition separator_free :: "string \<Rightarrow> bool" where
  "separator_free p = (\<not> occurs '';;;'' p \<and> (p = [] \<or> last p \<noteq> CHR '';''))"

text \<open>
  The texts that survive joining with \<open>;;;\<close> and splitting again: none of them contains
  \<open>;;;\<close>, and none but the last ends in a semicolon.
\<close>

fun separable_texts :: "string list \<Rightarrow> bool" where
  "separable_texts [] = True"
| "separable_texts [p] = (\<not> occurs '';;;'' p)"
| "separable_texts (p # q # ps) = (separator_free p \<and> separable_texts (q # ps))"

section \<open>Example contracts and requests\<close>

text \<open>
  The example library accepts every headers value. Its message follows the defaults of
  \<open>zod-validation-error\<close>: the prefix \<open>Validation error: \<close>, at most 99 issues, and an
  issue rendered as its description, followed by the quoted path when the path is not empty
  (the paths of the examples consist of identifier keys, which the package joins with dots).
\<close>

definition ex_lib :: "string libs" where
  \<open>ex_lib =
     \<lparr>record_string_parse = Inr,
      zve_prefix = ''Validation error: '',
      zve_issue_text = (\<lambda>i. if issue_path i = [] then issue_message i
                             else issue_message i @ '' at "'' @ js_join ''.'' (issue_path i) @ ''"''),
      zve_max_issues = 99\<rparr>\<close>

definition ex_request :: "string Request" where
  "ex_request = \<lparr>req_query = ''q'', req_params = ''p'', req_body = ''b'', req_headers = ''h''\<rparr>"

definition ex_inputs :: "string inputs" where
  "ex_inputs = \<lparr>in_query = ''q'', in_params = ''p'', in_body = ''b'', in_headers = ''h''\<rparr>"

definition ex_log :: LogParams where
  "ex_log = \<lparr>level = Info, message = ''test'', tags = [''abc''], metadata = []\<rparr>"

text \<open>The contract of the example server: no input schema, one log event, a result.\<close>

definition ex_contract :: "(string, string) ContractInput" where
  "ex_contract =
     \<lparr>c_query = None, c_params = None, c_body = None, c_headers = None, c_result = None,
      c_handler = (\<lambda>i. CtxLog ex_log (Return ''A'')),
      c_onUnexpectedError = None, c_beforeResponse = None\<rparr>"

definition no_logger :: contractContext where
  "no_logger = \<lparr>logger = None\<rparr>"

definition with_logger :: contractContext where
  "with_logger = defineLogger (\<lambda>logs. Resolves) no_logger"

definition id_issue :: zod_issue where
  "id_issue = \<lparr>issue_path = [''id''], issue_message = ''Required''\<rparr>"

definition name_issue :: zod_issue where
  "name_issue = \<lparr>issue_path = [''user'', ''name''], issue_message = ''Expected string, received number''\<rparr>"

text \<open>The query schema rejects the request with two issues; a body schema is present too.\<close>

definition failing_query_contract :: "(string, string) ContractInput" where
  "failing_query_contract =
     ex_contract\<lparr>c_query := Some (\<lambda>v. Inl (ZodError [id_issue, name_issue])), c_body := Some Inr\<rparr>"

text \<open>An issue whose description contains the separator.\<close>

definition separator_issue :: zod_issue where
  "separator_issue = \<lparr>issue_path = [], issue_message = ''too short;;; really''\<rparr>"

definition separator_contract :: "(string, string) ContractInput" where
  "separator_contract = ex_contract\<lparr>c_query := Some (\<lambda>v. Inl (ZodError [separator_issue]))\<rparr>"

text \<open>Two issues, the first of which ends in a semicolon; and a single one that does.\<close>

definition semicolon_issue :: zod_issue where
  "semicolon_issue = \<lparr>issue_path = [], issue_message = ''bad;''\<rparr>"

definition plain_issue :: zod_issue where
  "plain_issue = \<lparr>issue_path = [], issue_message = ''worse''\<rparr>"

definition semicolon_contract :: "(string, string) ContractInput" where
  "semicolon_contract = ex_contract\<lparr>c_query := Some (\<lambda>v. Inl (ZodError [semicolon_issue]))\<rparr>"

definition semicolon_first_contract :: "(string, string) ContractInput" where
  "semicolon_first_contract =
     ex_contract\<lparr>c_query := Some (\<lambda>v. Inl (ZodError [semicolon_issue, plain_issue]))\<rparr>"

text \<open>A library that puts a single issue into its message.\<close>

definition one_issue_lib :: "string libs" where
  "one_issue_lib = ex_lib\<lparr>zve_max_issues := 1\<rparr>"

text \<open>The handler logs and then calls \<open>ctx.error("bad input", 422)\<close>.\<close>

definition business_error_contract :: "(string, string) ContractInput" where
  "business_error_contract =
     ex_contract\<lparr>c_handler := (\<lambda>i. CtxLog ex_log (CtxError ''bad input'' (Some 422)))\<rparr>"

text \<open>
  The handler throws an ordinary error and \<open>onUnexpectedError\<close> is a function that throws
  when called, as in \<open>onUnexpectedError: (e) => { throw new Error("tracker down") }\<close>.
\<close>

definition throwing_tracker_contract :: "(string, string) ContractInput" where
  "throwing_tracker_contract =
     ex_contract\<lparr>c_handler := (\<lambda>i. Throw (OtherError ''boom'')),
       c_onUnexpectedError := Some (\<lambda>e. ThrowsSync (OtherError ''tracker down''))\<rparr>"

text \<open>The handler succeeds and \<open>beforeResponse\<close> is a function that throws when called.\<close>

definition throwing_hook_contract :: "(string, string) ContractInput" where
  "throwing_hook_contract =
     ex_contract\<lparr>c_beforeResponse := Some (\<lambda>d. ThrowsSync (OtherError ''hook failed''))\<rparr>"

text \<open>A logger that throws when called, and one that rejects with \<open>undefined\<close>.\<close>

definition throwing_logger :: contractContext where
  "throwing_logger = defineLogger (\<lambda>logs. ThrowsSync (OtherError ''sink down'')) no_logger"

definition nullish_logger :: contractContext where
  "nullish_logger = defineLogger (\<lambda>logs. Rejects Nullish) no_logger"

section \<open>Traces of the stages\<close>

lemma responses_simps [simp]:
  "responses [] = []"
  "responses (t @ u) = responses t @ responses u"
  "responses (ev # t) = (case ev of ResJson env \<Rightarrow> [env] | _ \<Rightarrow> []) @ responses t"
  by (simp_all add: responses_def)

lemma validated_simps [simp]:
  "validated [] = []"
  "validated (t @ u) = validated t @ validated u"
  "validated (ev # t) =
     (case ev of Parse ch raw \<Rightarrow> [ch] | RecordParse raw \<Rightarrow> [Headers] | _ \<Rightarrow> []) @ validated t"
  by (simp_all add: validated_def)

lemma handler_calls_simps [simp]:
  "handler_calls [] = []"
  "handler_calls (t @ u) = handler_calls t @ handler_calls u"
  "handler_calls (ev # t) = (case ev of Handler i \<Rightarrow> [i] | _ \<Rightarrow> []) @ handler_calls t"
  by (simp_all add: handler_calls_def)

lemma unexpected_calls_simps [simp]:
  "unexpected_calls [] = []"
  "unexpected_calls (t @ u) = unexpected_calls t @ unexpected_calls u"
  "unexpected_calls (ev # t) =
     (case ev of OnUnexpectedError e \<Rightarrow> [e] | _ \<Rightarrow> []) @ unexpected_calls t"
  by (simp_all add: unexpected_calls_def)

lemma logger_calls_simps [simp]:
  "logger_calls [] = []"
  "logger_calls (t @ u) = logger_calls t @ logger_calls u"
  "logger_calls (ev # t) = (case ev of Logger ls \<Rightarrow> [ls] | _ \<Rightarrow> []) @ logger_calls t"
  by (simp_all add: logger_calls_def)

lemma console_silent:
  assumes "list_all is_console t"
  shows "responses t = [] \<and> validated t = [] \<and> handler_calls t = [] \<and>
         unexpected_calls t = [] \<and> logger_calls t = []"
  using assms by (induction t) (auto elim: is_console.elims)

lemma validation_silent:
  assumes "list_all is_validation t"
  shows "responses t = [] \<and> handler_calls t = [] \<and> unexpected_calls t = [] \<and>
         logger_calls t = []"
  using assms by (induction t) (auto elim: is_validation.elims)

lemma fst_and_then:
  "fst (and_then m f) = fst m @ (case snd m of Inl e \<Rightarrow> [] | Inr a \<Rightarrow> fst (f a))"
  by (cases m; cases "snd m") (auto simp: and_then_def split: prod.splits)

lemma snd_and_then:
  "snd (and_then m f) = (case snd m of Inl e \<Rightarrow> Inl e | Inr a \<Rightarrow> snd (f a))"
  by (cases m; cases "snd m") (auto simp: and_then_def split: prod.splits)

lemma parse_field_validation: "list_all is_validation (fst (parse_field ch s raw))"
  by (simp add: parse_field_def split: option.splits)

lemma parse_headers_validation: "list_all is_validation (fst (parse_headers lib s raw))"
  by (simp add: parse_headers_def split: option.splits)

lemma parse_inputs_validation:
  assumes "parse_inputs c lib req = (t, r)"
  shows "list_all is_validation t"
proof -
  have "list_all is_validation (fst (parse_inputs c lib req))"
    by (simp add: parse_inputs_def fst_and_then parse_field_validation
        parse_headers_validation split: sum.splits)
  with assms show ?thesis by simp
qed

lemma swallow_console:
  assumes "swallow l h = (t, x)"
  shows "list_all is_console t"
  using assms by (cases h) (auto split: thrown.splits)

lemma js_split_from_nonempty: "js_split_from sep cur s \<noteq> []"
  by (induction sep cur s rule: js_split_from.induct) (subst js_split_from.simps, simp)

lemma js_split_nonempty: "sep \<noteq> [] \<Longrightarrow> js_split s sep \<noteq> []"
  by (simp add: js_split_def js_split_from_nonempty)

lemma before_response_responses: "before_response c d = (t, x) \<Longrightarrow> responses t = []"
  by (auto simp: before_response_def split: option.splits prod.splits
      dest!: swallow_console console_silent)

lemma on_unexpected_responses: "on_unexpected c e = (t, x) \<Longrightarrow> responses t = []"
  by (auto simp: on_unexpected_def split: option.splits prod.splits
      dest!: swallow_console console_silent)

lemma finally_block_responses: "finally_block cc logs = (t, x) \<Longrightarrow> responses t = []"
  by (auto simp: finally_block_def split: option.splits prod.splits
      dest!: swallow_console console_silent)

lemma try_block_responses:
  assumes "try_block c lib req = (t, logs, x)"
  shows "(x \<noteq> None \<longrightarrow> responses t = []) \<and>
         (x = None \<longrightarrow> (\<exists>d. handler_returned c lib req = Some d \<and>
              responses t = [\<lparr>ok = True, data = Some d, errors = []\<rparr>]))"
  using assms
  by (auto simp: try_block_def handler_returned_def
      split: prod.splits sum.splits option.splits
      dest!: parse_inputs_validation validation_silent before_response_responses)

lemma catch_block_responses:
  assumes "catch_block c lib e = (t, x)" and "env \<in> set (responses t)"
  shows "\<not> ok env \<and> data env = None \<and> errors env \<noteq> []"
  using assms
  by (auto simp: catch_block_def something_went_wrong_def js_split_nonempty
      split: thrown.splits prod.splits option.splits
      dest!: on_unexpected_responses)

lemma try_catch_responses:
  assumes "try_catch c lib req = (t, logs, x)" and "env \<in> set (responses t)"
  shows "(ok env \<longrightarrow> errors env = [] \<and> data env \<noteq> None \<and> data env = handler_returned c lib req) \<and>
         (\<not> ok env \<longrightarrow> data env = None \<and> errors env \<noteq> [])"
proof (cases "try_block c lib req")
  case (fields t1 logs1 x1)
  show ?thesis
  proof (cases x1)
    case None
    with fields assms try_block_responses [OF fields] show ?thesis
      by (auto simp: try_catch_def)
  next
    case (Some e)
    obtain t2 x2 where cb: "catch_block c lib e = (t2, x2)" by (cases "catch_block c lib e")
    from Some fields try_block_responses [OF fields] have "responses t1 = []" by simp
    with Some fields cb assms have "env \<in> set (responses t2)"
      by (auto simp: try_catch_def)
    with catch_block_responses [OF cb] show ?thesis by simp
  qed
qed

lemma contract_responses:
  "responses (trace (contract c lib cc req)) = responses (fst (try_catch c lib req))"
  by (auto simp: contract_def split: prod.splits dest!: finally_block_responses)

lemma hooks_ignore_result:
  "before_response (c\<lparr>c_result := s\<rparr>) = before_response c"
  "on_unexpected (c\<lparr>c_result := s\<rparr>) = on_unexpected c"
  "parse_inputs (c\<lparr>c_result := s\<rparr>) = parse_inputs c"
  by (simp_all add: fun_eq_iff before_response_def on_unexpected_def parse_inputs_def)

lemma catch_block_ignores_result:
  "catch_block (c\<lparr>c_result := s\<rparr>) lib e = catch_block c lib e"
  by (simp add: catch_block_def hooks_ignore_result split: thrown.splits)

lemma try_block_ignores_result:
  "try_block (c\<lparr>c_result := s\<rparr>) lib req = try_block c lib req"
  by (simp add: try_block_def hooks_ignore_result split: prod.splits sum.splits)

lemma contract_ignores_result:
  "contract (c\<lparr>c_result := s\<rparr>) lib cc req = contract c lib cc req"
  by (simp add: contract_def try_catch_def try_block_ignores_result catch_block_ignores_result
      split: prod.splits option.splits)

lemma before_response_silent:
  assumes "before_response c d = (t, x)"
  shows "validated t = [] \<and> handler_calls t = [] \<and> unexpected_calls t = [] \<and>
         logger_calls t = []"
  using assms
  by (auto simp: before_response_def split: option.splits prod.splits
      dest!: swallow_console console_silent)

lemma on_unexpected_silent:
  assumes "on_unexpected c e = (t, x)"
  shows "validated t = [] \<and> handler_calls t = [] \<and> logger_calls t = []"
  using assms
  by (auto simp: on_unexpected_def split: option.splits prod.splits
      dest!: swallow_console console_silent)

lemma catch_block_silent:
  assumes "catch_block c lib e = (t, x)"
  shows "validated t = [] \<and> handler_calls t = [] \<and> logger_calls t = []"
  using assms
  by (auto simp: catch_block_def split: thrown.splits option.splits prod.splits
      dest!: on_unexpected_silent)

lemma finally_block_silent:
  assumes "finally_block cc logs = (t, x)"
  shows "validated t = [] \<and> handler_calls t = [] \<and> unexpected_calls t = []"
  using assms
  by (auto simp: finally_block_def split: option.splits prod.splits
      dest!: swallow_console console_silent)

lemma try_block_validated:
  "validated (fst (try_block c lib req)) = validated (fst (parse_inputs c lib req))"
  by (auto simp: try_block_def split: prod.splits sum.splits option.splits
      dest!: before_response_silent)

lemma try_block_handler_calls:
  "handler_calls (fst (try_block c lib req)) =
     (case snd (parse_inputs c lib req) of Inl e \<Rightarrow> [] | Inr i \<Rightarrow> [i])"
  by (auto simp: try_block_def split: prod.splits sum.splits option.splits
      dest!: before_response_silent parse_inputs_validation validation_silent)

lemma try_catch_validated:
  "validated (fst (try_catch c lib req)) = validated (fst (parse_inputs c lib req))"
  using try_block_validated [of c lib req]
  by (auto simp: try_catch_def split: prod.splits option.splits dest!: catch_block_silent)

lemma try_catch_handler_calls:
  "handler_calls (fst (try_catch c lib req)) =
     (case snd (parse_inputs c lib req) of Inl e \<Rightarrow> [] | Inr i \<Rightarrow> [i])"
  using try_block_handler_calls [of c lib req]
  by (auto simp: try_catch_def split: prod.splits option.splits dest!: catch_block_silent)

lemma contract_validated:
  "validated (trace (contract c lib cc req)) = validated (fst (parse_inputs c lib req))"
  using try_catch_validated [of c lib req]
  by (auto simp: contract_def split: prod.splits dest!: finally_block_silent)

lemma contract_handler_calls:
  "handler_calls (trace (contract c lib cc req)) =
     (case snd (parse_inputs c lib req) of Inl e \<Rightarrow> [] | Inr i \<Rightarrow> [i])"
  using try_catch_handler_calls [of c lib req]
  by (auto simp: contract_def split: prod.splits dest!: finally_block_silent)

lemma parse_field_outcome:
  "snd (parse_field Query (c_query c) (req_query req) :: ('v, 'r) event list \<times> (thrown + 'v)) =
     channel_outcome (c :: ('v, 'r) ContractInput) lib req Query"
  "snd (parse_field Params (c_params c) (req_params req) :: ('v, 'r) event list \<times> (thrown + 'v)) =
     channel_outcome c lib req Params"
  "snd (parse_field Body (c_body c) (req_body req) :: ('v, 'r) event list \<times> (thrown + 'v)) =
     channel_outcome c lib req Body"
  "snd (parse_headers lib (c_headers c) (req_headers req) :: ('v, 'r) event list \<times> (thrown + 'v)) =
     channel_outcome c lib req Headers"
  by (simp_all add: parse_field_def parse_headers_def channel_outcome_def split: option.splits)

lemma parse_field_validated:
  "validated (fst (parse_field Query (c_query c) raw :: ('v, 'r) event list \<times> (thrown + 'v))) =
     filter (configured (c :: ('v, 'r) ContractInput)) [Query]"
  "validated (fst (parse_field Params (c_params c) raw :: ('v, 'r) event list \<times> (thrown + 'v))) =
     filter (configured c) [Params]"
  "validated (fst (parse_field Body (c_body c) raw :: ('v, 'r) event list \<times> (thrown + 'v))) =
     filter (configured c) [Body]"
  "validated (fst (parse_headers lib (c_headers c) raw :: ('v, 'r) event list \<times> (thrown + 'v))) =
     [Headers]"
  by (auto simp: parse_field_def parse_headers_def configured_def split: option.splits)

lemma parse_inputs_outcome:
  "snd (parse_inputs c lib req) =
     (case channel_outcome c lib req Query of Inl e \<Rightarrow> Inl e | Inr q \<Rightarrow>
      (case channel_outcome c lib req Params of Inl e \<Rightarrow> Inl e | Inr p \<Rightarrow>
      (case channel_outcome c lib req Body of Inl e \<Rightarrow> Inl e | Inr b \<Rightarrow>
      (case channel_outcome c lib req Headers of Inl e \<Rightarrow> Inl e | Inr h \<Rightarrow>
         Inr \<lparr>in_query = q, in_params = p, in_body = b, in_headers = h\<rparr>))))"
  by (simp add: parse_inputs_def snd_and_then parse_field_outcome [where lib = lib] split: sum.splits)

lemma parse_inputs_validated:
  "validated (fst (parse_inputs c lib req)) =
     filter (configured c) [Query] @
     (case channel_outcome c lib req Query of Inl e \<Rightarrow> [] | Inr q \<Rightarrow>
      filter (configured c) [Params] @
      (case channel_outcome c lib req Params of Inl e \<Rightarrow> [] | Inr p \<Rightarrow>
       filter (configured c) [Body] @
       (case channel_outcome c lib req Body of Inl e \<Rightarrow> [] | Inr b \<Rightarrow> [Headers])))"
  by (simp add: parse_inputs_def fst_and_then parse_field_outcome [where lib = lib]
      parse_field_validated del: filter.simps split: sum.splits)

lemma filter_single_rank:
  "ch' \<in> set (filter (configured c) [ch]) \<Longrightarrow> ch' = ch"
  by (simp split: if_splits)

lemma parse_inputs_fails:
  assumes "channel_fails c lib req ch"
  shows "(\<exists>e. snd (parse_inputs c lib req) = Inl e) \<and>
         (\<forall>ch'. rank ch < rank ch' \<longrightarrow> ch' \<notin> set (validated (fst (parse_inputs c lib req))))"
proof -
  from assms obtain e where e: "channel_outcome c lib req ch = Inl e"
    by (auto simp: channel_fails_def split: sum.splits)
  have "\<exists>e. snd (parse_inputs c lib req) = Inl e"
    using e by (cases ch) (simp_all add: parse_inputs_outcome split: sum.splits)
  moreover have "ch' \<notin> set (validated (fst (parse_inputs c lib req)))" if "rank ch < rank ch'" for ch'
    using e that unfolding parse_inputs_validated
    by (cases ch) (auto simp del: filter.simps split: sum.splits dest!: filter_single_rank)
  ultimately show ?thesis by blast
qed

lemma parse_inputs_exact:
  "validated (fst (parse_inputs c lib req)) =
     filter (configured c)
       (upto_first_failure (channel_fails c lib req) [Query, Params, Body, Headers])"
proof -
  have h: "configured c Headers" by (simp add: configured_def)
  show ?thesis
    unfolding parse_inputs_validated
    by (simp add: channel_fails_def h split: sum.splits)
qed

section \<open>The handler's script and the three blocks\<close>

lemma fst_run_handler: "fst (run_handler s logs) = logs @ script_logs s"
  by (induction s arbitrary: logs) simp_all

lemma snd_run_handler:
  "final_action s = Return d \<Longrightarrow> snd (run_handler s logs) = Inr d"
  "final_action s = Throw e \<Longrightarrow> snd (run_handler s logs) = Inl e"
  "final_action s = CtxError msg code \<Longrightarrow> snd (run_handler s logs) = Inl (ctx_error msg code)"
  by (induction s arbitrary: logs; simp)+

lemma try_block_parse_throws:
  assumes "snd (parse_inputs c lib req) = Inl e"
  shows "try_block c lib req = (fst (parse_inputs c lib req), [], Some e)"
  using assms by (cases "parse_inputs c lib req") (simp add: try_block_def)

lemma try_block_handler_throws:
  assumes "snd (parse_inputs c lib req) = Inr i"
    and "snd (run_handler (c_handler c i) []) = Inl e"
  shows "try_block c lib req =
           (fst (parse_inputs c lib req) @ [Handler i], script_logs (c_handler c i), Some e)"
  using assms fst_run_handler [of "c_handler c i" "[]"]
  by (cases "parse_inputs c lib req"; cases "run_handler (c_handler c i) []")
    (simp add: try_block_def)

lemma try_block_handler_returns:
  assumes "snd (parse_inputs c lib req) = Inr i"
    and "snd (run_handler (c_handler c i) []) = Inr d"
  shows "try_block c lib req =
           (case before_response c d of
              (t', Some e) \<Rightarrow>
                (fst (parse_inputs c lib req) @ Handler i # t', script_logs (c_handler c i), Some e)
            | (t', None) \<Rightarrow>
                (fst (parse_inputs c lib req) @ Handler i # t' @
                   [ResJson \<lparr>ok = True, data = Some d, errors = []\<rparr>],
                 script_logs (c_handler c i), None))"
  using assms fst_run_handler [of "c_handler c i" "[]"]
  by (cases "parse_inputs c lib req"; cases "run_handler (c_handler c i) []")
    (simp add: try_block_def)

lemma parse_inputs_responses: "responses (fst (parse_inputs c lib req)) = []"
  using parse_inputs_validation [of c lib req] validation_silent
  by (cases "parse_inputs c lib req") auto

lemma responses_parse_throws:
  assumes "snd (parse_inputs c lib req) = Inl e"
  shows "responses (trace (contract c lib cc req)) = responses (fst (catch_block c lib e))"
  by (simp add: contract_responses try_catch_def try_block_parse_throws [OF assms]
      parse_inputs_responses split: prod.splits)

lemma validation_error_response:
  assumes "snd (parse_inputs c lib req) = Inl (ZodError issues)"
  shows "responses (trace (contract c lib cc req)) =
           [\<lparr>ok = False, data = None,
             errors = js_split (fromZodError_message lib '';;;'' issues) '';;;''\<rparr>]"
  by (simp add: responses_parse_throws [OF assms] catch_block_def)

lemma responses_handler_throws:
  assumes "snd (parse_inputs c lib req) = Inr i"
    and "snd (run_handler (c_handler c i) []) = Inl e"
  shows "responses (trace (contract c lib cc req)) = responses (fst (catch_block c lib e))"
  by (simp add: contract_responses try_catch_def try_block_handler_throws [OF assms]
      parse_inputs_responses split: prod.splits)

lemma parse_inputs_logger_calls: "logger_calls (fst (parse_inputs c lib req)) = []"
  using parse_inputs_validation [of c lib req] validation_silent
  by (cases "parse_inputs c lib req") auto

lemma try_block_logs: "fst (snd (try_block c lib req)) = logged c lib req"
proof (cases "snd (parse_inputs c lib req)")
  case (Inl e)
  then show ?thesis by (simp add: try_block_parse_throws logged_def)
next
  case (Inr i)
  show ?thesis
  proof (cases "snd (run_handler (c_handler c i) [])")
    case (Inl e)
    with Inr show ?thesis by (simp add: try_block_handler_throws logged_def)
  next
    case (Inr d)
    with \<open>snd (parse_inputs c lib req) = Inr i\<close> show ?thesis
      by (simp add: try_block_handler_returns logged_def split: prod.splits option.splits)
  qed
qed

lemma try_block_logger_calls: "logger_calls (fst (try_block c lib req)) = []"
proof (cases "snd (parse_inputs c lib req)")
  case (Inl e)
  then show ?thesis by (simp add: try_block_parse_throws parse_inputs_logger_calls)
next
  case (Inr i)
  show ?thesis
  proof (cases "snd (run_handler (c_handler c i) [])")
    case (Inl e)
    with Inr show ?thesis by (simp add: try_block_handler_throws parse_inputs_logger_calls)
  next
    case (Inr d)
    with \<open>snd (parse_inputs c lib req) = Inr i\<close> show ?thesis
      by (auto simp: try_block_handler_returns parse_inputs_logger_calls
          split: prod.splits option.splits dest!: before_response_silent)
  qed
qed

lemma try_catch_logs: "fst (snd (try_catch c lib req)) = logged c lib req"
  using try_block_logs [of c lib req]
  by (auto simp: try_catch_def split: prod.splits option.splits)

lemma try_catch_logger_calls: "logger_calls (fst (try_catch c lib req)) = []"
  using try_block_logger_calls [of c lib req]
  by (auto simp: try_catch_def split: prod.splits option.splits dest!: catch_block_silent)

lemma contract_trace:
  "trace (contract c lib cc req) =
     fst (try_catch c lib req) @ fst (finally_block cc (logged c lib req))"
  using try_catch_logs [of c lib req]
  by (auto simp: contract_def split: prod.splits)

lemma contract_trace_starts:
  "\<exists>rest. trace (contract c lib cc req) = fst (parse_inputs c lib req) @ rest"
proof -
  have "\<exists>rest. fst (try_block c lib req) = fst (parse_inputs c lib req) @ rest"
    by (auto simp: try_block_def split: prod.splits sum.splits option.splits)
  then have "\<exists>rest. fst (try_catch c lib req) = fst (parse_inputs c lib req) @ rest"
    by (auto simp: try_catch_def split: prod.splits option.splits)
  then show ?thesis by (auto simp: contract_trace)
qed

section \<open>Joining and splitting the message of a validation error\<close>

text \<open>
  Splitting what \<open>join\<close> produced gives the pieces back as long as the separator shows up
  between the pieces only.
\<close>

lemma prefix_append_long:
  assumes "length xs \<le> length ys"
  shows "prefix xs (ys @ zs) = prefix xs ys"
proof
  assume "prefix xs (ys @ zs)"
  moreover have "prefix ys (ys @ zs)" by simp
  ultimately show "prefix xs ys" using assms by (rule prefix_length_prefix)
next
  assume "prefix xs ys"
  then show "prefix xs (ys @ zs)" by (rule prefix_prefix)
qed

lemma split_piece:
  assumes "sep \<noteq> []" and "sep_free sep p"
  shows "js_split_from sep cur (p @ sep @ rest) = (cur @ p) # js_split_from sep [] rest"
  using assms(2)
proof (induction p arbitrary: cur)
  case Nil
  with assms(1) show ?case by (subst js_split_from.simps) simp
next
  case (Cons ch p)
  from Cons.prems have np: "\<not> prefix sep (ch # p @ sep)" and fr: "sep_free sep p" by simp_all
  have "prefix sep ((ch # p @ sep) @ rest) = prefix sep (ch # p @ sep)"
    by (rule prefix_append_long) simp
  with np have "\<not> prefix sep (ch # p @ sep @ rest)" by simp
  then have "js_split_from sep cur ((ch # p) @ sep @ rest) =
      js_split_from sep (cur @ [ch]) (p @ sep @ rest)"
    by (subst js_split_from.simps) simp
  with Cons.IH [OF fr, of "cur @ [ch]"] show ?case by simp
qed

lemma split_last:
  assumes "\<not> occurs sep p"
  shows "js_split_from sep cur p = [cur @ p]"
  using assms
proof (induction p arbitrary: cur)
  case Nil
  show ?case by (subst js_split_from.simps) simp
next
  case (Cons ch p)
  from Cons.prems have np: "\<not> prefix sep (ch # p)" and no: "\<not> occurs sep p" by simp_all
  from np have "js_split_from sep cur (ch # p) = js_split_from sep (cur @ [ch]) p"
    by (subst js_split_from.simps) simp
  with Cons.IH [OF no, of "cur @ [ch]"] show ?case by simp
qed

lemma join_prefix: "a @ js_join sep (p # ps) = js_join sep ((a @ p) # ps)"
  by (cases ps) simp_all

lemma sep_free_semicolons:
  "sep_free '';;;'' p \<longleftrightarrow> \<not> occurs '';;;'' p \<and> (p = [] \<or> last p \<noteq> CHR '';'')"
proof (induction p)
  case Nil
  show ?case by simp
next
  case (Cons ch p)
  show ?case
  proof (cases p)
    case Nil
    then show ?thesis by auto
  next
    case p: (Cons a q)
    show ?thesis
    proof (cases q)
      case Nil
      with p Cons.IH show ?thesis by auto
    next
      case (Cons b r)
      with p Cons.IH show ?thesis by auto
    qed
  qed
qed

lemma occurs_iff: "occurs sep p \<longleftrightarrow> (\<exists>u v. p = u @ sep @ v)"
proof (induction p)
  case Nil
  show ?case by simp
next
  case (Cons ch p)
  have "(\<exists>u v. ch # p = u @ sep @ v) \<longleftrightarrow> prefix sep (ch # p) \<or> (\<exists>u v. p = u @ sep @ v)"
  proof
    assume "\<exists>u v. ch # p = u @ sep @ v"
    then obtain u v where uv: "ch # p = u @ sep @ v" by blast
    show "prefix sep (ch # p) \<or> (\<exists>u v. p = u @ sep @ v)"
    proof (cases u)
      case Nil
      with uv show ?thesis by (simp add: prefix_def)
    next
      case (Cons a u')
      with uv have "p = u' @ sep @ v" by simp
      then show ?thesis by blast
    qed
  next
    assume "prefix sep (ch # p) \<or> (\<exists>u v. p = u @ sep @ v)"
    then show "\<exists>u v. ch # p = u @ sep @ v"
    proof
      assume "prefix sep (ch # p)"
      then obtain v where "ch # p = sep @ v" by (auto simp: prefix_def)
      then have "ch # p = [] @ sep @ v" by simp
      then show ?thesis by blast
    next
      assume "\<exists>u v. p = u @ sep @ v"
      then obtain u v where "p = u @ sep @ v" by blast
      then have "ch # p = (ch # u) @ sep @ v" by simp
      then show ?thesis by blast
    qed
  qed
  with Cons.IH show ?case by simp
qed

lemma split_join:
  assumes "ps \<noteq> []" and "separable_texts ps"
  shows "js_split_from '';;;'' [] (js_join '';;;'' ps) = ps"
  using assms
proof (induction ps rule: separable_texts.induct)
  case 1
  then show ?case by simp
next
  case (2 p)
  then show ?case by (simp add: split_last)
next
  case (3 p q ps)
  then have fr: "sep_free '';;;'' p"
    and rest: "js_split_from '';;;'' [] (js_join '';;;'' (q # ps)) = q # ps"
    by (simp_all add: separator_free_def sep_free_semicolons)
  have "js_split_from '';;;'' [] (p @ '';;;'' @ js_join '';;;'' (q # ps)) =
      ([] @ p) # js_split_from '';;;'' [] (js_join '';;;'' (q # ps))"
    by (rule split_piece) (simp_all add: fr)
  with rest show ?case by (simp only: js_join.simps append_Nil)
qed

lemma message_split:
  assumes "issues \<noteq> []" and "length issues \<le> zve_max_issues lib"
    and "separable_texts (issue_texts lib issues)"
  shows "js_split (fromZodError_message lib '';;;'' issues) '';;;'' = issue_texts lib issues"
proof -
  from assms(1) obtain i rest where i: "issues = i # rest" by (cases issues) auto
  have "fromZodError_message lib '';;;'' issues = js_join '';;;'' (issue_texts lib issues)"
    using assms(2) by (simp add: fromZodError_message_def issue_texts_def i join_prefix)
  moreover have "issue_texts lib issues \<noteq> []" by (simp add: issue_texts_def i)
  ultimately show ?thesis
    using assms(3) by (simp add: js_split_def split_join)
qed

section \<open>Hooks, the logger and the number of responses\<close>

text \<open>
  A hook call leaves its statement with an exception in two cases only: the hook throws
  instead of returning a promise, or its promise rejects with \<open>null\<close> or \<open>undefined\<close>.
  In every other case the handler behaves as the hooks' callers expect.
\<close>

lemma swallow_escapes:
  "snd (swallow l h :: ('v, 'r) event list \<times> thrown option) = Some e' \<longleftrightarrow>
     h = ThrowsSync e' \<or> (h = Rejects Nullish \<and> e' = type_error)"
  by (cases h) (auto split: thrown.splits)

lemma on_unexpected_escapes:
  assumes "on_unexpected c e = (t, Some e')"
  shows "\<exists>hook. c_onUnexpectedError c = Some hook \<and>
           (hook e = ThrowsSync e' \<or> (hook e = Rejects Nullish \<and> e' = type_error))"
proof (cases "c_onUnexpectedError c")
  case None
  with assms show ?thesis by (simp add: on_unexpected_def)
next
  case (Some hook)
  with assms have "snd (swallow ''Error occured in onUnexpectedError hook:'' (hook e)
      :: ('a, 'b) event list \<times> thrown option) = Some e'"
    by (auto simp: on_unexpected_def split: prod.splits)
  with Some show ?thesis by (simp add: swallow_escapes)
qed

lemma catch_block_count:
  assumes "catch_block c lib e = (t, x)"
  shows "length (responses t) = (case x of None \<Rightarrow> 1 | Some e' \<Rightarrow> 0)"
  using assms
  by (auto simp: catch_block_def split: thrown.splits prod.splits option.splits
      dest!: on_unexpected_responses)

lemma try_block_count:
  assumes "try_block c lib req = (t, logs, x)"
  shows "length (responses t) = (case x of None \<Rightarrow> 1 | Some e' \<Rightarrow> 0)"
  using try_block_responses [OF assms] by (cases x) auto

lemma try_catch_count:
  assumes "try_catch c lib req = (t, logs, x)"
  shows "length (responses t) = (case x of None \<Rightarrow> 1 | Some e' \<Rightarrow> 0)"
proof (cases "try_block c lib req")
  case (fields t1 logs1 x1)
  show ?thesis
  proof (cases x1)
    case None
    with fields assms try_block_count [OF fields] show ?thesis
      by (simp add: try_catch_def)
  next
    case (Some e)
    obtain t2 x2 where cb: "catch_block c lib e = (t2, x2)" by (cases "catch_block c lib e")
    with Some fields assms try_block_count [OF fields] catch_block_count [OF cb] show ?thesis
      by (auto simp: try_catch_def)
  qed
qed

lemma response_count:
  "length (responses (trace (contract c lib cc req))) =
     (case snd (snd (try_catch c lib req)) of None \<Rightarrow> 1 | Some e' \<Rightarrow> 0)"
  using try_catch_count [of c lib req]
  by (cases "try_catch c lib req") (simp add: contract_responses)

lemma at_most_one_response: "length (responses (trace (contract c lib cc req))) \<le> 1"
  by (simp add: response_count split: option.splits)

lemma swallow_benign:
  assumes "h = Resolves \<or> (\<exists>e. h = Rejects e \<and> e \<noteq> Nullish)"
  shows "snd (swallow l h :: ('v, 'r) event list \<times> thrown option) = None"
  using assms by (cases h) (auto split: thrown.splits)

lemma parse_inputs_unexpected_calls: "unexpected_calls (fst (parse_inputs c lib req)) = []"
  using parse_inputs_validation [of c lib req] validation_silent
  by (cases "parse_inputs c lib req") auto

lemma unexpected_error_masked:
  assumes "snd (parse_inputs c lib req) = Inr i"
    and "snd (run_handler (c_handler c i) []) = Inl e"
    and "e = Nullish \<or> (\<exists>m. e = OtherError m)"
    and "\<forall>hook. c_onUnexpectedError c = Some hook \<longrightarrow>
           hook e = Resolves \<or> (\<exists>e'. hook e = Rejects e' \<and> e' \<noteq> Nullish)"
  shows "responses (trace (contract c lib cc req)) = [something_went_wrong] \<and>
         unexpected_calls (trace (contract c lib cc req)) =
           (case c_onUnexpectedError c of None \<Rightarrow> [] | Some hook \<Rightarrow> [e]) \<and>
         snd (snd (try_catch c lib req)) = None"
proof -
  obtain t :: "('a, 'b) event list" where ou: "on_unexpected c e = (t, None)"
    and un: "unexpected_calls t = (case c_onUnexpectedError c of None \<Rightarrow> [] | Some hook \<Rightarrow> [e])"
    and re: "responses t = []"
  proof (cases "c_onUnexpectedError c")
    case None
    then show ?thesis using that [of "[]"] by (simp add: on_unexpected_def)
  next
    case (Some hook)
    with assms(4) have b: "hook e = Resolves \<or> (\<exists>e'. hook e = Rejects e' \<and> e' \<noteq> Nullish)"
      by simp
    obtain t' :: "('a, 'b) event list" and x
      where sw: "swallow ''Error occured in onUnexpectedError hook:'' (hook e) = (t', x)"
      by (cases "swallow ''Error occured in onUnexpectedError hook:'' (hook e)
                   :: ('a, 'b) event list \<times> thrown option")
    with swallow_benign [OF b, of "''Error occured in onUnexpectedError hook:''"]
    have x: "x = None" by (metis snd_conv)
    from sw have "list_all is_console t'" by (rule swallow_console)
    then have "unexpected_calls t' = []" "responses t' = []" using console_silent by auto
    with Some sw x that [of "OnUnexpectedError e # t'"] show ?thesis
      by (simp add: on_unexpected_def)
  qed
  have cb: "catch_block c lib e = (t @ [ResJson something_went_wrong], None)"
    using assms(3) ou by (auto simp: catch_block_def)
  have tc: "try_catch c lib req =
      ((fst (parse_inputs c lib req) @ [Handler i]) @ t @ [ResJson something_went_wrong],
       script_logs (c_handler c i), None)"
    by (simp add: try_catch_def try_block_handler_throws [OF assms(1,2)] cb)
  have "responses (trace (contract c lib cc req)) = [something_went_wrong]"
    by (simp add: contract_responses tc parse_inputs_responses re)
  moreover have "unexpected_calls (trace (contract c lib cc req)) =
           (case c_onUnexpectedError c of None \<Rightarrow> [] | Some hook \<Rightarrow> [e])"
    using finally_block_silent [of cc "script_logs (c_handler c i)"]
    by (auto simp: contract_def tc parse_inputs_unexpected_calls un split: prod.splits)
  moreover have "snd (snd (try_catch c lib req)) = None"
    by (simp add: tc)
  ultimately show ?thesis by simp
qed


lemma before_response_failure_swallowed:
  assumes "snd (parse_inputs c lib req) = Inr i"
    and "snd (run_handler (c_handler c i) []) = Inr d"
    and "\<forall>hook. c_beforeResponse c = Some hook \<longrightarrow>
           hook d = Resolves \<or> (\<exists>e. hook d = Rejects e \<and> e \<noteq> Nullish)"
  shows "responses (trace (contract c lib cc req)) = [\<lparr>ok = True, data = Some d, errors = []\<rparr>]"
proof -
  obtain t :: "('a, 'b) event list" and x where br: "before_response c d = (t, x)"
    by (cases "before_response c d")
  have "x = None"
  proof (cases "c_beforeResponse c")
    case None
    with br show ?thesis by (simp add: before_response_def)
  next
    case (Some hook)
    with assms(3) have b: "hook d = Resolves \<or> (\<exists>e. hook d = Rejects e \<and> e \<noteq> Nullish)"
      by simp
    from Some br have "x = snd (swallow ''Error occured in beforeResponse hook:'' (hook d)
        :: ('a, 'b) event list \<times> thrown option)"
      by (auto simp: before_response_def split: prod.splits)
    with swallow_benign [OF b] show ?thesis by simp
  qed
  with br before_response_responses [OF br] show ?thesis
    by (simp add: contract_responses try_catch_def try_block_handler_returns [OF assms(1,2)]
        parse_inputs_responses)
qed

lemma flush_keeps_response:
  "responses (trace (contract c lib cc req)) = responses (trace (contract c lib cc' req))"
  by (simp add: contract_responses)

lemma flush_without_logger:
  assumes "logger cc = None"
  shows "contract c lib cc req =
           \<lparr>trace = fst (try_catch c lib req) @ [ConsoleLog ''No logger defined''],
            completion = snd (snd (try_catch c lib req))\<rparr>"
  using assms by (simp add: contract_def finally_block_def split: prod.splits)

lemma flush_rejection_caught:
  assumes "logger cc = Some fn" and "fn (logged c lib req) = Rejects e" and "e \<noteq> Nullish"
  shows "contract c lib cc req =
           \<lparr>trace = fst (try_catch c lib req) @
              [Logger (logged c lib req), ConsoleError ''Error occured in logger:'' e],
            completion = snd (snd (try_catch c lib req))\<rparr>"
  using assms try_catch_logs [of c lib req]
  by (cases e) (auto simp: contract_def finally_block_def split: prod.splits)

section \<open>Evaluating the handler on the examples\<close>

lemmas run_defs =
  contract_def try_catch_def try_block_def catch_block_def finally_block_def parse_inputs_def
  and_then_def parse_field_def parse_headers_def before_response_def on_unexpected_def
  something_went_wrong_def fromZodError_message_def js_split_def ctx_error_def
  defineLogger_def type_error_def handler_returned_def logged_def issue_texts_def
  channel_fails_def channel_outcome_def configured_def

lemmas ex_defs =
  ex_lib_def ex_request_def ex_inputs_def ex_log_def ex_contract_def no_logger_def
  with_logger_def id_issue_def name_issue_def failing_query_contract_def separator_issue_def
  separator_contract_def business_error_contract_def throwing_tracker_contract_def
  throwing_hook_contract_def throwing_logger_def nullish_logger_def semicolon_issue_def
  plain_issue_def one_issue_lib_def semicolon_contract_def semicolon_first_contract_def

text \<open>
  What the conditions on the issue texts are for. A text that ends in a semicolon and is
  followed by another one loses the semicolon to the separator; and a library that renders
  one issue only answers two issues with one entry.
\<close>

lemma semicolon_before_separator:
  "responses (trace (contract semicolon_first_contract ex_lib no_logger ex_request)) =
     [\<lparr>ok = False, data = None, errors = [''Validation error: bad'', '';worse'']\<rparr>]"
  by (simp add: run_defs ex_defs js_split_from.simps)

lemma issues_beyond_maximum:
  \<open>responses (trace (contract failing_query_contract one_issue_lib no_logger ex_request)) =
     [\<lparr>ok = False, data = None, errors = [''Validation error: Required at "id"'']\<rparr>]\<close>
  by (simp add: run_defs ex_defs js_split_from.simps)

section \<open>The claims\<close>

text \<open>
  C1. Every envelope the handler passes to \<open>res.json\<close> obeys the exclusivity invariant:
  with \<open>ok = true\<close> the errors are empty and \<open>data\<close> is the value the contract's handler
  returned; with \<open>ok = false\<close> \<open>data\<close> is null and there is at least one error message.
  The output schema \<open>result\<close> plays no part: replacing it leaves the whole run unchanged.
\<close>

theorem envelope_invariant:
  "(\<forall>env \<in> set (responses (trace (contract c lib cc req))).
      (ok env \<longrightarrow> errors env = [] \<and> data env \<noteq> None \<and> data env = handler_returned c lib req) \<and>
      (\<not> ok env \<longrightarrow> data env = None \<and> errors env \<noteq> [])) \<and>
   contract (c\<lparr>c_result := s\<rparr>) lib cc req = contract c lib cc req"
proof -
  obtain t logs x where tc: "try_catch c lib req = (t, logs, x)"
    by (cases "try_catch c lib req")
  have r: "responses (trace (contract c lib cc req)) = responses t"
    by (simp add: contract_responses tc)
  show ?thesis
    unfolding r using try_catch_responses [OF tc] contract_ignores_result [of s c lib cc req]
    by blast
qed

theorem envelope_invariant_witness:
  "\<lparr>ok = True, data = Some ''A'', errors = []\<rparr>
     \<in> set (responses (trace (contract ex_contract ex_lib no_logger ex_request))) \<and>
   handler_returned ex_contract ex_lib ex_request = Some ''A'' \<and>
   contract (ex_contract\<lparr>c_result := Some Inr\<rparr>) ex_lib no_logger ex_request =
     contract ex_contract ex_lib no_logger ex_request"
  using envelope_invariant [of ex_contract ex_lib no_logger ex_request "Some Inr"]
  by (simp add: run_defs ex_defs)

text \<open>
  C2. The channels are validated in the order query, params, body, headers: the channels
  validated during a run are the configured ones among query, params, body, headers, in that
  order, up to and including the first whose validator throws. When the validator of a
  channel throws, no later channel is validated and the contract's handler is not called.
\<close>

theorem validation_order:
  "validated (trace (contract c lib cc req)) =
     filter (configured c)
       (upto_first_failure (channel_fails c lib req) [Query, Params, Body, Headers]) \<and>
   (\<forall>ch. channel_fails c lib req ch \<longrightarrow>
      handler_calls (trace (contract c lib cc req)) = [] \<and>
      (\<forall>ch'. rank ch < rank ch' \<longrightarrow> ch' \<notin> set (validated (trace (contract c lib cc req)))))"
proof -
  have "handler_calls (trace (contract c lib cc req)) = [] \<and>
      (\<forall>ch'. rank ch < rank ch' \<longrightarrow> ch' \<notin> set (validated (trace (contract c lib cc req))))"
    if "channel_fails c lib req ch" for ch
    using parse_inputs_fails [OF that] by (auto simp: contract_validated contract_handler_calls)
  then show ?thesis
    using parse_inputs_exact [of c lib req] by (simp only: contract_validated) blast
qed

theorem validation_order_witness:
  "channel_fails failing_query_contract ex_lib ex_request Query \<and>
   rank Query < rank Body \<and>
   validated (trace (contract failing_query_contract ex_lib no_logger ex_request)) = [Query] \<and>
   handler_calls (trace (contract failing_query_contract ex_lib no_logger ex_request)) = [] \<and>
   Body \<notin> set (validated (trace (contract failing_query_contract ex_lib no_logger ex_request)))"
  using validation_order [of failing_query_contract ex_lib no_logger ex_request]
  by (simp add: run_defs ex_defs)

text \<open>
  C3 (as amended). When an input validator throws a \<open>ZodError\<close> with at least one issue
  and no more issues than \<open>fromZodError\<close> puts into one message, and no rendered issue
  text contains the separator \<open>;;;\<close> and none but the last ends in a semicolon, the only
  response is the failure envelope whose errors are the rendered texts of the issues, one
  per issue and in the order of the issues.
\<close>

theorem validation_error_messages:
  assumes "snd (parse_inputs c lib req) = Inl (ZodError issues)"
    and "issues \<noteq> []"
    and "length issues \<le> zve_max_issues lib"
    and "separable_texts (issue_texts lib issues)"
  shows "responses (trace (contract c lib cc req)) =
           [\<lparr>ok = False, data = None, errors = issue_texts lib issues\<rparr>] \<and>
         length (issue_texts lib issues) = length issues"
proof -
  have "length (issue_texts lib issues) = length issues"
    by (simp add: issue_texts_def split: list.splits)
  then show ?thesis
    by (simp add: validation_error_response [OF assms(1)] message_split [OF assms(2,3,4)])
qed

theorem validation_error_messages_witness:
  \<open>snd (parse_inputs failing_query_contract ex_lib ex_request) = Inl (ZodError [id_issue, name_issue]) \<and>
   [id_issue, name_issue] \<noteq> [] \<and>
   length [id_issue, name_issue] \<le> zve_max_issues ex_lib \<and>
   separable_texts (issue_texts ex_lib [id_issue, name_issue]) \<and>
   responses (trace (contract failing_query_contract ex_lib no_logger ex_request)) =
     [\<lparr>ok = False, data = None,
       errors = [''Validation error: Required at "id"'',
                 ''Expected string, received number at "user.name"'']\<rparr>] \<and>
   snd (parse_inputs semicolon_contract ex_lib ex_request) = Inl (ZodError [semicolon_issue]) \<and>
   separable_texts (issue_texts ex_lib [semicolon_issue]) \<and>
   responses (trace (contract semicolon_contract ex_lib no_logger ex_request)) =
     [\<lparr>ok = False, data = None, errors = [''Validation error: bad;'']\<rparr>]\<close>
proof -
  have p: "snd (parse_inputs failing_query_contract ex_lib ex_request) =
      Inl (ZodError [id_issue, name_issue])"
    by (simp add: run_defs ex_defs)
  have n: "[id_issue, name_issue] \<noteq> []" by simp
  have m: "length [id_issue, name_issue] \<le> zve_max_issues ex_lib" by (simp add: ex_lib_def)
  have t: \<open>issue_texts ex_lib [id_issue, name_issue] =
      [''Validation error: Required at "id"'', ''Expected string, received number at "user.name"'']\<close>
    by (simp add: issue_texts_def ex_lib_def id_issue_def name_issue_def)
  have f: "separable_texts (issue_texts ex_lib [id_issue, name_issue])"
    unfolding t by (simp add: separator_free_def)
  have p': "snd (parse_inputs semicolon_contract ex_lib ex_request) = Inl (ZodError [semicolon_issue])"
    by (simp add: run_defs ex_defs)
  have n': "[semicolon_issue] \<noteq> []" by simp
  have m': "length [semicolon_issue] \<le> zve_max_issues ex_lib" by (simp add: ex_lib_def)
  have t': "issue_texts ex_lib [semicolon_issue] = [''Validation error: bad;'']"
    by (simp add: issue_texts_def ex_lib_def semicolon_issue_def)
  have f': "separable_texts (issue_texts ex_lib [semicolon_issue])"
    unfolding t' by simp
  from validation_error_messages [OF p n m f, of no_logger]
    validation_error_messages [OF p' n' m' f', of no_logger] p n m f t p' f' t'
  show ?thesis by simp
qed

text \<open>
  The claim as stated fails for an issue whose text contains the separator: one issue, two
  error entries.
\<close>

theorem validation_error_messages_counterexample:
  "snd (parse_inputs separator_contract ex_lib ex_request) = Inl (ZodError [separator_issue]) \<and>
   responses (trace (contract separator_contract ex_lib no_logger ex_request)) =
     [\<lparr>ok = False, data = None, errors = [''Validation error: too short'', '' really'']\<rparr>]"
  by (simp add: run_defs ex_defs js_split_from.simps)

text \<open>
  C4. When the contract's handler ends by calling \<open>ctx.error\<close> with a message and a numeric
  code, the only response is the failure envelope whose single error is the message. The
  envelope has no place for the code, and the response is the same for every code.
\<close>

theorem business_error_envelope:
  assumes "snd (parse_inputs c lib req) = Inr i"
    and "final_action (c_handler c i) = CtxError msg (Some code)"
  shows "responses (trace (contract c lib cc req)) = [\<lparr>ok = False, data = None, errors = [msg]\<rparr>]"
proof -
  have "snd (run_handler (c_handler c i) []) = Inl (ContractError msg code)"
    using assms(2) by (simp add: snd_run_handler ctx_error_def)
  from responses_handler_throws [OF assms(1) this] show ?thesis
    by (simp add: catch_block_def)
qed

theorem business_error_envelope_witness:
  "snd (parse_inputs business_error_contract ex_lib ex_request) = Inr ex_inputs \<and>
   final_action (c_handler business_error_contract ex_inputs) = CtxError ''bad input'' (Some 422) \<and>
   responses (trace (contract business_error_contract ex_lib no_logger ex_request)) =
     [\<lparr>ok = False, data = None, errors = [''bad input'']\<rparr>]"
proof -
  have p: "snd (parse_inputs business_error_contract ex_lib ex_request) = Inr ex_inputs"
    by (simp add: run_defs ex_defs)
  have a: "final_action (c_handler business_error_contract ex_inputs) = CtxError ''bad input'' (Some 422)"
    by (simp add: ex_defs)
  from business_error_envelope [OF p a, of no_logger] p a show ?thesis by simp
qed

text \<open>
  C5, at a failing input. The handler throws an ordinary error and \<open>onUnexpectedError\<close>
  throws when it is called: the hook is called with the original error, its exception leaves
  the \<open>catch\<close> clause, \<open>res.json\<close> is never reached and the promise of the request handler
  rejects with the hook's exception.
\<close>

theorem unexpected_error_hook_escapes:
  "contract throwing_tracker_contract ex_lib no_logger ex_request =
     \<lparr>trace = [RecordParse ''h'', Handler ex_inputs, OnUnexpectedError (OtherError ''boom''),
               ConsoleLog ''No logger defined''],
      completion = Some (OtherError ''tracker down'')\<rparr>"
  by (simp add: run_defs ex_defs)

text \<open>
  C6. With a logger defined, every run calls it exactly once, with the events logged through
  \<open>ctx.log\<close> during the request (the empty list when there were none). The call comes
  after everything \<open>try\<close> and \<open>catch\<close> did, in particular after the response was
  decided; behind it the trace holds console output only.
\<close>

theorem logs_flushed_once:
  assumes "logger cc = Some fn"
  shows "logger_calls (trace (contract (c :: ('v, 'r) ContractInput) lib cc req)) =
           [logged c lib req] \<and>
         (\<exists>pre post. trace (contract c lib cc req) = pre @ Logger (logged c lib req) # post \<and>
            logger_calls pre = [] \<and> list_all is_console post)"
proof -
  obtain t :: "('v, 'r) event list" and x
    where sw: "swallow ''Error occured in logger:'' (fn (logged c lib req)) = (t, x)"
    by (cases "swallow ''Error occured in logger:'' (fn (logged c lib req))
                 :: ('v, 'r) event list \<times> thrown option")
  have fin: "fst (finally_block cc (logged c lib req)) = Logger (logged c lib req) # t"
    using assms sw by (simp add: finally_block_def)
  have con: "list_all is_console t" using sw by (rule swallow_console)
  have tr: "trace (contract c lib cc req) = fst (try_catch c lib req) @ Logger (logged c lib req) # t"
    by (simp add: contract_trace fin)
  have "logger_calls (trace (contract c lib cc req)) = [logged c lib req]"
    using console_silent [OF con] by (simp add: tr try_catch_logger_calls)
  moreover have "\<exists>pre post. trace (contract c lib cc req) = pre @ Logger (logged c lib req) # post \<and>
            logger_calls pre = [] \<and> list_all is_console post"
    using tr con try_catch_logger_calls [of c lib req] by blast
  ultimately show ?thesis by simp
qed

theorem logs_flushed_once_witness:
  "logger with_logger = Some (\<lambda>logs. Resolves) \<and>
   logged ex_contract ex_lib ex_request = [ex_log] \<and>
   logger_calls (trace (contract ex_contract ex_lib with_logger ex_request)) = [[ex_log]] \<and>
   logged failing_query_contract ex_lib ex_request = [] \<and>
   logger_calls (trace (contract failing_query_contract ex_lib with_logger ex_request)) = [[]]"
proof -
  have l: "logger with_logger = Some (\<lambda>logs. Resolves)"
    by (simp add: with_logger_def defineLogger_def)
  have a: "logged ex_contract ex_lib ex_request = [ex_log]"
    by (simp add: run_defs ex_defs)
  have b: "logged failing_query_contract ex_lib ex_request = []"
    by (simp add: run_defs ex_defs)
  from logs_flushed_once [OF l, of ex_contract ex_lib ex_request]
    logs_flushed_once [OF l, of failing_query_contract ex_lib ex_request] l a b
  show ?thesis by simp
qed

text \<open>
  C7. A contract without input schemas hands the raw query, params and body of the request
  to its handler unchanged. The headers still go through \<open>z.record(z.string())\<close>: that
  validation is the first event of every such run, the handler receives what it returned,
  and the handler is not called when it throws.
\<close>

theorem no_validators_pass_through:
  assumes "c_query c = None" and "c_params c = None" and "c_body c = None"
    and "c_headers c = None"
  shows "validated (trace (contract c lib cc req)) = [Headers] \<and>
         (\<exists>rest. trace (contract c lib cc req) = RecordParse (req_headers req) # rest) \<and>
         handler_calls (trace (contract c lib cc req)) =
           (case record_string_parse lib (req_headers req) of
              Inl e \<Rightarrow> []
            | Inr h \<Rightarrow> [\<lparr>in_query = req_query req, in_params = req_params req,
                          in_body = req_body req, in_headers = h\<rparr>])"
proof -
  have p: "parse_inputs c lib req =
      ([RecordParse (req_headers req)],
       case record_string_parse lib (req_headers req) of
         Inl e \<Rightarrow> Inl e
       | Inr h \<Rightarrow> Inr \<lparr>in_query = req_query req, in_params = req_params req,
                        in_body = req_body req, in_headers = h\<rparr>)"
    using assms
    by (simp add: parse_inputs_def and_then_def parse_field_def parse_headers_def
        split: sum.splits)
  have "validated (trace (contract c lib cc req)) = [Headers]"
    by (simp add: contract_validated p)
  moreover have "\<exists>rest. trace (contract c lib cc req) = RecordParse (req_headers req) # rest"
    using contract_trace_starts [of c lib cc req] by (simp add: p)
  moreover have "handler_calls (trace (contract c lib cc req)) =
           (case record_string_parse lib (req_headers req) of
              Inl e \<Rightarrow> []
            | Inr h \<Rightarrow> [\<lparr>in_query = req_query req, in_params = req_params req,
                          in_body = req_body req, in_headers = h\<rparr>])"
    by (simp add: contract_handler_calls p split: sum.splits)
  ultimately show ?thesis by simp
qed

theorem no_validators_pass_through_witness:
  "c_query ex_contract = None \<and> c_params ex_contract = None \<and> c_body ex_contract = None \<and>
   c_headers ex_contract = None \<and>
   validated (trace (contract ex_contract ex_lib no_logger ex_request)) = [Headers] \<and>
   handler_calls (trace (contract ex_contract ex_lib no_logger ex_request)) =
     [\<lparr>in_query = ''q'', in_params = ''p'', in_body = ''b'', in_headers = ''h''\<rparr>]"
proof -
  have n: "c_query ex_contract = None" "c_params ex_contract = None" "c_body ex_contract = None"
    "c_headers ex_contract = None"
    by (simp_all add: ex_contract_def)
  from no_validators_pass_through [OF n, of ex_lib no_logger ex_request] n show ?thesis
    by (simp add: ex_lib_def ex_request_def)
qed

text \<open>
  C8, at a failing input. The handler returns \<open>A\<close> and \<open>beforeResponse\<close> throws when it is
  called: the exception reaches the \<open>catch\<close> clause and the response is the generic failure
  envelope instead of the success envelope.
\<close>

theorem before_response_throw_replaces_success:
  "handler_returned throwing_hook_contract ex_lib ex_request = Some ''A'' \<and>
   contract throwing_hook_contract ex_lib no_logger ex_request =
     \<lparr>trace = [RecordParse ''h'', Handler ex_inputs, BeforeResponse ''A'',
               ResJson \<lparr>ok = False, data = None, errors = [''Something went wrong'']\<rparr>,
               ConsoleLog ''No logger defined''],
      completion = None\<rparr>"
  by (simp add: run_defs ex_defs)

text \<open>
  C9, at a failing input. The logger throws when it is called (or rejects with
  \<open>undefined\<close>): the response was sent and stays as it is, but the exception is not caught;
  it leaves the \<open>finally\<close> clause and the promise of the request handler rejects with it.
\<close>

theorem logger_throw_escapes:
  "contract ex_contract ex_lib throwing_logger ex_request =
     \<lparr>trace = [RecordParse ''h'', Handler ex_inputs,
               ResJson \<lparr>ok = True, data = Some ''A'', errors = []\<rparr>, Logger [ex_log]],
      completion = Some (OtherError ''sink down'')\<rparr> \<and>
   contract ex_contract ex_lib nullish_logger ex_request =
     \<lparr>trace = [RecordParse ''h'', Handler ex_inputs,
               ResJson \<lparr>ok = True, data = Some ''A'', errors = []\<rparr>, Logger [ex_log]],
      completion = Some type_error\<rparr>"
  by (simp add: run_defs ex_defs)

text \<open>
  C10, at a failing input. The handler throws an ordinary error and \<open>onUnexpectedError\<close>
  throws when it is called: the run makes no call of \<open>res.json\<close> at all.
\<close>

theorem no_response_when_hook_throws:
  "length (responses (trace (contract throwing_tracker_contract ex_lib with_logger ex_request))) = 0"
  by (simp add: run_defs ex_defs)

end
